theory Spec2Isabelle
  imports Main "HOL-Library.Multiset"
begin

unbundle bit_operations_syntax

section \<open>Data of \<^verbatim>\<open>ncm2mp3.py\<close>\<close>

text \<open>
  A Python \<^verbatim>\<open>bytes\<close> or \<^verbatim>\<open>bytearray\<close> is a list of Python ints; the ints are
  unbounded, so they are \<open>nat\<close> here and every \<^verbatim>\<open>& 0xFF\<close> of the source is written
  out as \<open>AND 255\<close>. The exceptions the decoder can raise are the constructors of
  \<open>error\<close>; a function that can raise returns \<open>error + 'a\<close> with \<open>Inl\<close> the exception.
\<close>

type_synonym bytes = "nat list"

datatype error =
    AssertionError
  | IndexError
  | StructError
  | ValueError
  | BinasciiError
  | UnicodeDecodeError
  | JSONDecodeError
  | AttributeError
  | FileNotFoundError
  | OSError

section \<open>Python slices\<close>

text \<open>
  \<^verbatim>\<open>s[:k]\<close> for an integer \<open>k\<close>: a negative \<open>k\<close> counts from the end and is clamped
  at the start of the sequence; \<open>k = 0\<close> (also written \<^verbatim>\<open>-0\<close>) is the empty prefix.
\<close>

definition slice_to :: "'a list \<Rightarrow> int \<Rightarrow> 'a list" where
  "slice_to s k = (if k < 0 then take (nat (int (length s) + k)) s else take (nat k) s)"

section \<open>The padding remover (line 98)\<close>

text \<open>
  \<^verbatim>\<open>unpad = lambda s: s[:-(s[-1] if isinstance(s[-1], int) else ord(s[-1]))]\<close>.
  On \<^verbatim>\<open>bytes\<close> the last element is an int. \<^verbatim>\<open>s[-1]\<close> raises IndexError on the
  empty sequence; the slice never raises.
\<close>

definition unpad :: "bytes \<Rightarrow> error + bytes" where
  "unpad s = (if s = [] then Inl IndexError else Inr (slice_to s (- int (last s))))"

section \<open>The key schedule (lines 115 to 124)\<close>

text \<open>
  The loop state is \<open>(key_box, last, off)\<close>; \<open>swap\<close> and \<open>c\<close> are set afresh in
  every iteration before they are read. \<^verbatim>\<open>key_data[off]\<close> raises IndexError when
  \<open>off\<close> is out of range, which happens exactly for the empty key (at the first
  iteration, before the \<^verbatim>\<open>% len(key_data)\<close>). The tuple assignment evaluates its
  right-hand side first, then stores into index \<open>i\<close>, then into index \<open>c\<close>.
\<close>

definition ksa_step :: "bytes \<Rightarrow> nat \<Rightarrow> bytes \<times> nat \<times> nat \<Rightarrow> error + bytes \<times> nat \<times> nat" where
  "ksa_step key_data i st =
     (case st of (key_box, lst, off) \<Rightarrow>
        if off < length key_data then
          let swap = key_box ! i;
              c = (swap + lst + key_data ! off) AND 255;
              off' = (off + 1) mod length key_data
          in Inr (key_box[i := key_box ! c, c := key_box ! i], c, off')
        else Inl IndexError)"

fun ksa_loop :: "bytes \<Rightarrow> nat list \<Rightarrow> bytes \<times> nat \<times> nat \<Rightarrow> error + bytes \<times> nat \<times> nat" where
  "ksa_loop key_data [] st = Inr st"
| "ksa_loop key_data (i # rest) st =
     (case ksa_step key_data i st of
        Inl e \<Rightarrow> Inl e
      | Inr st' \<Rightarrow> ksa_loop key_data rest st')"

definition build_key_box :: "bytes \<Rightarrow> error + bytes" where
  "build_key_box key_data =
     (case ksa_loop key_data [0..<256] ([0..<256], 0, 0) of
        Inl e \<Rightarrow> Inl e
      | Inr st \<Rightarrow> Inr (fst st))"

section \<open>Decoding the audio payload (lines 147 to 157)\<close>

text \<open>
  The body of the inner loop reads \<open>key_box\<close> and updates one byte of \<open>chunk\<close>. Both
  are mutable bytearrays in scope of the loop, so the state is the pair of them.
\<close>

definition keystream_at :: "bytes \<Rightarrow> nat \<Rightarrow> nat" where
  "keystream_at key_box i =
     (let j = i AND 255;
          idx = (key_box ! j + key_box ! ((key_box ! j + j) AND 255)) AND 255
      in key_box ! idx)"

definition xor_at :: "nat \<Rightarrow> bytes \<times> bytes \<Rightarrow> bytes \<times> bytes" where
  "xor_at i st =
     (case st of (key_box, chunk) \<Rightarrow>
        (key_box, chunk[i - 1 := chunk ! (i - 1) XOR keystream_at key_box i]))"

definition decode_chunk :: "bytes \<Rightarrow> bytes \<Rightarrow> bytes \<times> bytes" where
  "decode_chunk key_box chunk = fold xor_at [1..<length chunk + 1] (key_box, chunk)"

text \<open>
  \<^verbatim>\<open>while True: chunk = bytearray(f.read(0x8000)); if not chunk: break; ...; m.write(chunk)\<close>.
  \<open>rest\<close> is what the input file still holds behind the cursor, \<open>out\<close> what has been
  written to the output file.
\<close>

function stream_audio :: "bytes \<Rightarrow> bytes \<Rightarrow> bytes \<Rightarrow> bytes \<times> bytes" where
  "stream_audio key_box rest out =
     (let chunk = take 32768 rest in
      if chunk = [] then (key_box, out)
      else (case decode_chunk key_box chunk of
              (key_box', chunk') \<Rightarrow> stream_audio key_box' (drop 32768 rest) (out @ chunk')))"
  by pat_completeness auto
termination
  by (relation "measure (\<lambda>(key_box, rest, out). length rest)") auto

declare stream_audio.simps [simp del]

section \<open>The keystream engine as the specification words it\<close>

text \<open>
  A second formulation, written from the specification's sentences and not from the code:
  the table starts as the identity on \<open>0..255\<close>; for each index \<open>i\<close> from 0 to 255,
  \<open>c = (table[i] + carry + seedKey[keyOffset]) mod 256\<close>, then
  \<open>keyOffset = (keyOffset + 1) mod len(seedKey)\<close>, swap \<open>table[i]\<close> and \<open>table[c]\<close>,
  and \<open>carry = c\<close>. \<open>spec_schedule seedKey n\<close> is the state \<open>(table, carry, keyOffset)\<close>
  after the indices below \<open>n\<close>.
\<close>

definition swap_entries :: "nat list \<Rightarrow> nat \<Rightarrow> nat \<Rightarrow> nat list" where
  "swap_entries table i c = (let a = table ! i; b = table ! c in table[i := b, c := a])"

primrec spec_schedule :: "bytes \<Rightarrow> nat \<Rightarrow> nat list \<times> nat \<times> nat" where
  "spec_schedule seedKey 0 = ([0..<256], 0, 0)"
| "spec_schedule seedKey (Suc i) =
     (case spec_schedule seedKey i of (table, carry, keyOffset) \<Rightarrow>
        let c = (table ! i + carry + seedKey ! keyOffset) mod 256
        in (swap_entries table i c, c, (keyOffset + 1) mod length seedKey))"

definition spec_table :: "bytes \<Rightarrow> nat list" where
  "spec_table seedKey = fst (spec_schedule seedKey 256)"

text \<open>
  The keystream byte for position \<open>p\<close>: \<open>j = p mod 256\<close>,
  \<open>idx = (table[j] + table[(table[j] + j) mod 256]) mod 256\<close>, the byte is \<open>table[idx]\<close>.
\<close>

definition spec_keystream :: "nat list \<Rightarrow> nat \<Rightarrow> nat" where
  "spec_keystream table p =
     (let j = p mod 256;
          idx = (table ! j + table ! ((table ! j + j) mod 256)) mod 256
      in table ! idx)"

text \<open>
  The decoder the specification warns against: a position counter that keeps counting
  across chunks. \<open>pos\<close> is the number of payload bytes decoded so far, so the bytes of
  the next chunk have the positions \<open>pos + 1\<close>, \<open>pos + 2\<close>, ...
\<close>

definition decode_chunk_from :: "bytes \<Rightarrow> nat \<Rightarrow> bytes \<Rightarrow> bytes" where
  "decode_chunk_from key_box pos chunk =
     map (\<lambda>k. chunk ! k XOR keystream_at key_box (pos + k + 1)) [0..<length chunk]"

function stream_audio_global :: "bytes \<Rightarrow> nat \<Rightarrow> bytes \<Rightarrow> bytes \<Rightarrow> bytes" where
  "stream_audio_global key_box pos rest out =
     (let chunk = take 32768 rest in
      if chunk = [] then out
      else stream_audio_global key_box (pos + length chunk) (drop 32768 rest)
             (out @ decode_chunk_from key_box pos chunk))"
  by pat_completeness auto
termination
  by (relation "measure (\<lambda>(key_box, pos, rest, out). length rest)") auto

declare stream_audio_global.simps [simp del]

text \<open>
  What both decoders compute, as one expression: byte \<open>k\<close> of \<open>xs\<close> XORed with the
  keystream byte of position \<open>pos + k + 1\<close>.
\<close>

definition xor_stream :: "bytes \<Rightarrow> nat \<Rightarrow> bytes \<Rightarrow> bytes" where
  "xor_stream key_box pos xs =
     map (\<lambda>k. xs ! k XOR keystream_at key_box (pos + k + 1)) [0..<length xs]"

section \<open>Libraries and the world outside\<close>

text \<open>
  The decoder calls libraries that are not part of the repository: AES in ECB mode
  (\<^verbatim>\<open>Crypto.Cipher.AES\<close>), \<^verbatim>\<open>base64.b64decode\<close>, \<^verbatim>\<open>bytes.decode("utf-8")\<close>,
  \<^verbatim>\<open>json.loads\<close> and \<^verbatim>\<open>os.path.splitext\<close>. They are the fields of \<open>lib\<close>, and every
  theorem below holds for whatever they compute. \<open>cover_block\<close> is the effect on the
  files of the best-effort block of lines 163 to 178 (download the cover, write it into
  the tag, remove the temporary picture), which catches every exception it meets.

  The operating system is a part of \<open>lib\<close> as well, with the failures it can answer
  once the decoder turns to the output file: \<open>open_fails p\<close> says that
  \<^verbatim>\<open>open(p, "wb")\<close> raises OSError; \<open>read_fails k\<close> that the read of chunk number \<open>k\<close>
  (from 0) raises it; \<open>write_fault k = Some n\<close> that the write of chunk number \<open>k\<close>
  raises it after \<open>n\<close> bytes of the chunk have reached the file.

  A JSON value is what \<^verbatim>\<open>json.loads\<close> returns; numbers are integers here, and a Python
  \<^verbatim>\<open>str\<close> is a \<open>string\<close>.
\<close>

datatype json =
    JNull
  | JBool bool
  | JNum int
  | JStr string
  | JArr "json list"
  | JObj "(string \<times> json) list"

record lib =
  aes_ecb_decrypt :: "bytes \<Rightarrow> bytes \<Rightarrow> error + bytes"
  b64decode :: "bytes \<Rightarrow> error + bytes"
  utf8_decode :: "bytes \<Rightarrow> error + string"
  json_loads :: "string \<Rightarrow> error + json"
  splitext_root :: "string \<Rightarrow> string"
  cover_block :: "string \<Rightarrow> string \<Rightarrow> (string \<rightharpoonup> bytes) \<Rightarrow> (string \<rightharpoonup> bytes)"
  open_fails :: "string \<Rightarrow> bool"
  read_fails :: "nat \<Rightarrow> bool"
  write_fault :: "nat \<Rightarrow> nat option"

text \<open>
  The world a call of \<^verbatim>\<open>dump_ncm\<close> changes: the files by path, and the cover URLs
  handed to \<^verbatim>\<open>download_pic\<close> so far.
\<close>

record world =
  files :: "string \<rightharpoonup> bytes"
  fetched :: "string list"

section \<open>Strings\<close>

text \<open>
  \<^verbatim>\<open>str.lower\<close>, \<^verbatim>\<open>str.endswith\<close> and \<^verbatim>\<open>str.strip\<close>. A \<open>char\<close> is a code point below
  256: the capital letters are \<open>A\<close> to \<open>Z\<close> and U+00C0 to U+00DE without the
  multiplication sign U+00D7, each 32 below its small letter; the white space is U+0009
  to U+000D, U+001C to U+0020, U+0085 and U+00A0.
\<close>

definition lower_char :: "char \<Rightarrow> char" where
  "lower_char ch =
     (let n = of_char ch :: nat in
      if (65 \<le> n \<and> n \<le> 90) \<or> (192 \<le> n \<and> n \<le> 222 \<and> n \<noteq> 215)
      then char_of (n + 32) else ch)"

definition lower :: "string \<Rightarrow> string" where
  "lower s = map lower_char s"

definition endswith :: "string \<Rightarrow> string \<Rightarrow> bool" where
  "endswith s suffix =
     (length suffix \<le> length s \<and> drop (length s - length suffix) s = suffix)"

definition is_space :: "char \<Rightarrow> bool" where
  "is_space ch =
     (let n = of_char ch :: nat in
      (9 \<le> n \<and> n \<le> 13) \<or> (28 \<le> n \<and> n \<le> 32) \<or> n = 133 \<or> n = 160)"

definition strip :: "string \<Rightarrow> string" where
  "strip s = rev (dropWhile is_space (rev (dropWhile is_space s)))"

section \<open>Reading the container\<close>

text \<open>
  The input file is open for reading with a forward cursor; \<open>rest\<close> is what lies behind
  the cursor. \<^verbatim>\<open>f.read(n)\<close> returns at most \<open>n\<close> bytes, \<^verbatim>\<open>f.seek(n, 1)\<close> moves
  forward (past the end of the file every read is empty), and
  \<^verbatim>\<open>struct.unpack("<I", b)\<close> raises \<^verbatim>\<open>struct.error\<close> unless \<open>b\<close> has four bytes.
\<close>

definition read_bytes :: "nat \<Rightarrow> bytes \<Rightarrow> bytes \<times> bytes" where
  "read_bytes n rest = (take n rest, drop n rest)"

definition seek_cur :: "nat \<Rightarrow> bytes \<Rightarrow> bytes" where
  "seek_cur n rest = drop n rest"

definition unpack_u32 :: "bytes \<Rightarrow> error + nat" where
  "unpack_u32 b =
     (case b of
        [b0, b1, b2, b3] \<Rightarrow> Inr (b0 + 256 * b1 + 65536 * b2 + 16777216 * b3)
      | _ \<Rightarrow> Inl StructError)"

text \<open>A length-prefixed block (lines 107 and 108, 127 and 128, 138 and 139).\<close>

definition read_block :: "bytes \<Rightarrow> error + bytes \<times> bytes" where
  "read_block rest =
     (case read_bytes 4 rest of (lenb, r) \<Rightarrow>
        case unpack_u32 lenb of
          Inl e \<Rightarrow> Inl e
        | Inr n \<Rightarrow> Inr (read_bytes n r))"

text \<open>\<^verbatim>\<open>for i in range(len(data)): data[i] ^= m\<close> (lines 109 and 110, 129 and 130).\<close>

definition xor_mask :: "nat \<Rightarrow> bytes \<Rightarrow> bytes" where
  "xor_mask m data = fold (\<lambda>i d. d[i := d ! i XOR m]) [0..<length data] data"

definition magic :: bytes where
  "magic = [0x43, 0x54, 0x45, 0x4E, 0x46, 0x44, 0x41, 0x4D]"

definition core_key :: bytes where
  "core_key = [0x68, 0x7A, 0x48, 0x52, 0x41, 0x6D, 0x73, 0x6F,
               0x35, 0x6B, 0x49, 0x6E, 0x62, 0x61, 0x78, 0x57]"

definition meta_key :: bytes where
  "meta_key = [0x23, 0x31, 0x34, 0x6C, 0x6A, 0x6B, 0x5F, 0x21,
               0x5C, 0x5D, 0x26, 0x30, 0x55, 0x3C, 0x27, 0x28]"

section \<open>Key recovery (lines 108 to 112)\<close>

definition recover_key :: "lib \<Rightarrow> bytes \<Rightarrow> error + bytes" where
  "recover_key L key_block =
     (case aes_ecb_decrypt L core_key (xor_mask 0x64 key_block) of
        Inl e \<Rightarrow> Inl e
      | Inr plain \<Rightarrow>
          (case unpad plain of
             Inl e \<Rightarrow> Inl e
           | Inr u \<Rightarrow> Inr (drop 17 u)))"


section \<open>Metadata recovery (lines 128 to 133)\<close>

definition recover_meta :: "lib \<Rightarrow> bytes \<Rightarrow> error + json" where
  "recover_meta L meta_block =
     (case b64decode L (drop 22 (xor_mask 0x63 meta_block)) of
        Inl e \<Rightarrow> Inl e
      | Inr meta_data \<Rightarrow>
          (case aes_ecb_decrypt L meta_key meta_data of
             Inl e \<Rightarrow> Inl e
           | Inr meta_raw \<Rightarrow>
               (case unpad meta_raw of
                  Inl e \<Rightarrow> Inl e
                | Inr u \<Rightarrow>
                    (case utf8_decode L u of
                       Inl e \<Rightarrow> Inl e
                     | Inr txt \<Rightarrow> json_loads L (drop 6 txt)))))"

section \<open>What the metadata decides (lines 142 to 144 and 160)\<close>

text \<open>
  \<^verbatim>\<open>meta.get\<close> exists on a dict only, \<^verbatim>\<open>.lower()\<close> and \<^verbatim>\<open>.strip()\<close> on a str only:
  every other value raises AttributeError. \<^verbatim>\<open>x or ""\<close> is \<open>x\<close> when \<open>x\<close> is truthy and
  the empty string otherwise. A dict is the list of its items, each key once.
\<close>

definition dict_get :: "json \<Rightarrow> string \<Rightarrow> error + json option" where
  "dict_get meta k = (case meta of JObj kvs \<Rightarrow> Inr (map_of kvs k) | _ \<Rightarrow> Inl AttributeError)"

fun truthy :: "json \<Rightarrow> bool" where
  "truthy JNull = False"
| "truthy (JBool b) = b"
| "truthy (JNum n) = (n \<noteq> 0)"
| "truthy (JStr s) = (s \<noteq> [])"
| "truthy (JArr xs) = (xs \<noteq> [])"
| "truthy (JObj kvs) = (kvs \<noteq> [])"

definition output_ext :: "json \<Rightarrow> error + string" where
  "output_ext meta =
     (case dict_get meta ''format'' of
        Inl e \<Rightarrow> Inl e
      | Inr None \<Rightarrow> Inr (lower ''mp3'')
      | Inr (Some (JStr s)) \<Rightarrow> Inr (lower s)
      | Inr (Some _) \<Rightarrow> Inl AttributeError)"

definition output_path :: "lib \<Rightarrow> string \<Rightarrow> string \<Rightarrow> string" where
  "output_path L output_fp ext =
     (if \<not> endswith (lower output_fp) (''.'' @ ext)
      then splitext_root L output_fp @ ''.'' @ ext
      else output_fp)"

definition cover_url_of :: "json \<Rightarrow> error + string" where
  "cover_url_of meta =
     (case dict_get meta ''albumPic'' of
        Inl e \<Rightarrow> Inl e
      | Inr v \<Rightarrow>
          (case (case v of None \<Rightarrow> JStr [] | Some x \<Rightarrow> if truthy x then x else JStr []) of
             JStr s \<Rightarrow> Inr (strip s)
           | _ \<Rightarrow> Inl AttributeError))"

section \<open>The decoder (lines 91 to 182)\<close>

text \<open>
  Lines 101 to 108: the signature, two reserved bytes, the key block. Line 103 asserts
  that the hexadecimal dump of the header is that of \<^verbatim>\<open>CTENFDAM\<close>, which says that the
  header is these eight bytes; a failed \<^verbatim>\<open>assert\<close> raises AssertionError.
\<close>

definition read_key_block :: "bytes \<Rightarrow> error + bytes \<times> bytes" where
  "read_key_block content =
     (case read_bytes 8 content of (header, r1) \<Rightarrow>
        if header \<noteq> magic then Inl AssertionError else read_block (seek_cur 2 r1))"

text \<open>Lines 101 to 124: the key box, and the file behind the key block.\<close>

definition key_stage :: "lib \<Rightarrow> bytes \<Rightarrow> error + bytes \<times> bytes" where
  "key_stage L content =
     (case read_key_block content of
        Inl e \<Rightarrow> Inl e
      | Inr (key_block, r2) \<Rightarrow>
          (case recover_key L key_block of
             Inl e \<Rightarrow> Inl e
           | Inr key_data \<Rightarrow>
               (case build_key_box key_data of
                  Inl e \<Rightarrow> Inl e
                | Inr key_box \<Rightarrow> Inr (key_box, r2))))"

text \<open>Lines 127 to 133: the metadata, and the file behind the metadata block.\<close>

definition meta_stage :: "lib \<Rightarrow> bytes \<Rightarrow> error + json \<times> bytes" where
  "meta_stage L r2 =
     (case read_block r2 of
        Inl e \<Rightarrow> Inl e
      | Inr (meta_block, r3) \<Rightarrow>
          (case recover_meta L meta_block of
             Inl e \<Rightarrow> Inl e
           | Inr meta \<Rightarrow> Inr (meta, r3)))"

text \<open>Lines 136 to 139: the checksum, five reserved bytes, the embedded picture.\<close>

definition skip_image :: "bytes \<Rightarrow> error + bytes" where
  "skip_image r3 =
     (case read_block (seek_cur 5 (snd (read_bytes 4 r3))) of
        Inl e \<Rightarrow> Inl e
      | Inr (img, r4) \<Rightarrow> Inr r4)"

text \<open>
  Everything \<^verbatim>\<open>dump_ncm\<close> does before it opens the output file (lines 101 to 144):
  the key box, the metadata, the output path and the payload still to be read.
\<close>

definition prepare :: "lib \<Rightarrow> bytes \<Rightarrow> string \<Rightarrow> error + bytes \<times> json \<times> string \<times> bytes" where
  "prepare L content output_fp =
     (case key_stage L content of
        Inl e \<Rightarrow> Inl e
      | Inr (key_box, r2) \<Rightarrow>
          (case meta_stage L r2 of
             Inl e \<Rightarrow> Inl e
           | Inr (meta, r3) \<Rightarrow>
               (case skip_image r3 of
                  Inl e \<Rightarrow> Inl e
                | Inr payload \<Rightarrow>
                    (case output_ext meta of
                       Inl e \<Rightarrow> Inl e
                     | Inr ext \<Rightarrow> Inr (key_box, meta, output_path L output_fp ext, payload)))))"

text \<open>
  The loop of lines 148 to 157 with the failures of the operating system: \<open>k\<close> counts
  the chunks, \<open>out\<close> is what the output file holds. A read that raises leaves the file
  as it is; a write that raises leaves it with the part of the chunk that was written.
  The result is the exception, if one was raised, and the content of the output file.
  Where nothing fails this is \<open>stream_audio\<close>.
\<close>

function write_audio :: "lib \<Rightarrow> bytes \<Rightarrow> nat \<Rightarrow> bytes \<Rightarrow> bytes \<Rightarrow> error option \<times> bytes" where
  "write_audio L key_box k rest out =
     (if read_fails L k then (Some OSError, out)
      else
        (let chunk = take 32768 rest in
         if chunk = [] then (None, out)
         else (case decode_chunk key_box chunk of
                 (key_box', chunk') \<Rightarrow>
                   (case write_fault L k of
                      Some n \<Rightarrow> (Some OSError, out @ take n chunk')
                    | None \<Rightarrow>
                        write_audio L key_box' (Suc k) (drop 32768 rest) (out @ chunk')))))"
  by pat_completeness auto
termination
  by (relation "measure (\<lambda>(L, key_box, k, rest, out). length rest)") auto

declare write_audio.simps [simp del]

text \<open>
  \<^verbatim>\<open>dump_ncm(input_fp, output_fp)\<close>: the value returned or the exception raised, and the
  world afterwards. \<^verbatim>\<open>open(output_fp, "wb")\<close> creates or truncates the file at the
  final path, and the loop writes the decoded chunks into that file: an exception in
  the loop leaves the file at the final path with what was written. The cover URL is
  looked at only after that file is closed. The reads before line 147 deliver the
  bytes of the input file as it was when the call began (the output path is taken to
  differ from the input path).
\<close>

definition dump_ncm :: "lib \<Rightarrow> world \<Rightarrow> string \<Rightarrow> string \<Rightarrow> (error + string) \<times> world" where
  "dump_ncm L w input_fp output_fp =
     (case files w input_fp of
        None \<Rightarrow> (Inl FileNotFoundError, w)
      | Some content \<Rightarrow>
          (case prepare L content output_fp of
             Inl e \<Rightarrow> (Inl e, w)
           | Inr (key_box, meta, out_fp, payload) \<Rightarrow>
               if open_fails L out_fp then (Inl OSError, w)
               else
                 (case write_audio L key_box 0 payload [] of
                    (Some e, written) \<Rightarrow> (Inl e, w\<lparr>files := (files w)(out_fp \<mapsto> written)\<rparr>)
                  | (None, audio) \<Rightarrow>
                      (let w1 = w\<lparr>files := (files w)(out_fp \<mapsto> audio)\<rparr>
                       in case cover_url_of meta of
                            Inl e \<Rightarrow> (Inl e, w1)
                          | Inr cover_url \<Rightarrow>
                              if cover_url \<noteq> []
                              then (Inr out_fp,
                                    w1\<lparr>files := cover_block L cover_url out_fp (files w1),
                                       fetched := fetched w1 @ [cover_url]\<rparr>)
                              else (Inr out_fp, w1)))))"

section \<open>A crafted container and stand-ins for the libraries\<close>

text \<open>
  Concrete inputs for the closed theorems below. \<open>container meta_block\<close> is a whole
  container file: the signature, two reserved bytes, a key block of 32 bytes, the
  metadata block (of less than 256 bytes), four checksum bytes, five reserved bytes, an empty picture block and
  the three payload bytes \<open>16, 32, 48\<close>.

  \<open>key_block_A\<close> is the AES-128-ECB encryption, under the core key, of
  \<^verbatim>\<open>neteasecloudmusic\<close> (17 bytes), the seed key \<^verbatim>\<open>TESTKEY!\<close> and seven padding bytes
  \<open>7\<close>, each byte then XORed with \<open>0x64\<close>. \<open>meta_block_A\<close> is \<^verbatim>\<open>163 key(Don't modify):\<close>
  followed by the base64 text of the AES-128-ECB encryption, under the metadata key, of
  \<^verbatim>\<open>music:{"albumPic":5}\<close> and twelve padding bytes \<open>12\<close>, each byte XORed with \<open>0x63\<close>.
  \<open>meta_block_B\<close> is the same 22-byte prefix followed by the single character \<^verbatim>\<open>A\<close>,
  which is not base64 text.

  \<open>test_lib\<close> stands in for the libraries. On the arguments these containers lead to
  it returns what the libraries return: the two AES plaintexts, the base64 decoding of
  the 44 characters, \<^verbatim>\<open>binascii.Error\<close> for a base64 text of one character, the ASCII
  text of ASCII bytes and the parsed JSON object. Elsewhere it is a placeholder. Under
  \<open>test_lib\<close> the operating system never fails; under \<open>full_disk_lib\<close> every write to
  the output file raises OSError after two bytes.
\<close>

definition key_block_A :: bytes where
  "key_block_A = [44, 206, 213, 235, 105, 234, 251, 20, 85, 13, 69, 191, 97, 221, 23, 29,
                  188, 236, 96, 7, 95, 89, 220, 77, 128, 90, 248, 95, 246, 52, 92, 215]"


definition meta_block_B :: bytes where
  "meta_block_B = [82, 85, 80, 67, 8, 6, 26, 75, 39, 12, 13, 68, 23, 67, 14, 12, 7, 10, 5, 26, 74, 89, 34]"

definition container :: "bytes \<Rightarrow> bytes" where
  "container meta_block =
     magic @ [0, 0] @ [32, 0, 0, 0] @ key_block_A
       @ [length meta_block, 0, 0, 0] @ meta_block
       @ [0, 0, 0, 0] @ [0, 0, 0, 0, 0] @ [0, 0, 0, 0] @ [16, 32, 48]"

definition test_aes :: "bytes \<Rightarrow> bytes \<Rightarrow> error + bytes" where
  "test_aes key data =
     (if length data mod 16 \<noteq> 0 then Inl ValueError
      else if key = core_key \<and>
              data = [72, 170, 177, 143, 13, 142, 159, 112, 49, 105, 33, 219, 5, 185, 115, 121,
                      216, 136, 4, 99, 59, 61, 184, 41, 228, 62, 156, 59, 146, 80, 56, 179]
      then Inr [110, 101, 116, 101, 97, 115, 101, 99, 108, 111, 117, 100, 109, 117, 115, 105,
                99, 84, 69, 83, 84, 75, 69, 89, 33, 7, 7, 7, 7, 7, 7, 7]
      else if key = meta_key \<and>
              data = [12, 133, 220, 103, 234, 58, 29, 231, 102, 127, 122, 4, 218, 51, 226, 20,
                      36, 240, 16, 82, 245, 59, 112, 185, 28, 144, 228, 244, 99, 148, 229, 244]
      then Inr [109, 117, 115, 105, 99, 58, 123, 34, 97, 108, 98, 117, 109, 80, 105, 99,
                34, 58, 53, 125, 12, 12, 12, 12, 12, 12, 12, 12, 12, 12, 12, 12]
      else Inr data)"

definition test_b64 :: "bytes \<Rightarrow> error + bytes" where
  "test_b64 data =
     (if data = [68, 73, 88, 99, 90, 43, 111, 54, 72, 101, 100, 109, 102, 51, 111, 69, 50, 106, 80, 105,
                 70, 67, 84, 119, 69, 70, 76, 49, 79, 51, 67, 53, 72, 74, 68, 107, 57, 71, 79, 85,
                 53, 102, 81, 61]
      then Inr [12, 133, 220, 103, 234, 58, 29, 231, 102, 127, 122, 4, 218, 51, 226, 20,
                36, 240, 16, 82, 245, 59, 112, 185, 28, 144, 228, 244, 99, 148, 229, 244]
      else if length data mod 4 = 1 then Inl BinasciiError
      else Inr [])"

definition test_utf8 :: "bytes \<Rightarrow> error + string" where
  "test_utf8 data = (if list_all (\<lambda>b. b < 128) data then Inr (map char_of data) else Inl UnicodeDecodeError)"

definition test_json :: "string \<Rightarrow> error + json" where
  \<open>test_json s = (if s = ''{"albumPic":5}'' then Inr (JObj [(''albumPic'', JNum 5)]) else Inl JSONDecodeError)\<close>

definition test_splitext :: "string \<Rightarrow> string" where
  "test_splitext p = (if CHR ''.'' \<in> set p then rev (tl (dropWhile (\<lambda>ch. ch \<noteq> CHR ''.'') (rev p))) else p)"

definition test_lib :: lib where
  "test_lib = \<lparr>aes_ecb_decrypt = test_aes, b64decode = test_b64, utf8_decode = test_utf8,
               json_loads = test_json, splitext_root = test_splitext,
               cover_block = (\<lambda>url out_fp fs. fs),
               open_fails = (\<lambda>p. False), read_fails = (\<lambda>k. False),
               write_fault = (\<lambda>k. None)\<rparr>"


definition test_world :: "bytes \<Rightarrow> world" where
  "test_world content = \<lparr>files = [''song.ncm'' \<mapsto> content], fetched = []\<rparr>"

section \<open>The key schedule: it returns, and what it returns\<close>

lemma and_255: "(x::nat) AND 255 = x mod 256"
  using take_bit_eq_mask [of 8 x] by (simp add: take_bit_eq_mod mask_eq_exp_minus_1)

lemma ksa_step_ok:
  assumes "off < length key_data" "length key_box = 256" "i < 256"
  shows "\<exists>kb' c off'. ksa_step key_data i (key_box, lst, off) = Inr (kb', c, off')
           \<and> off' < length key_data \<and> length kb' = 256 \<and> mset kb' = mset key_box"
proof -
  let ?c = "(key_box ! i + lst + key_data ! off) AND 255"
  have c: "?c < 256" by (simp add: and_255)
  have "mset (key_box[i := key_box ! ?c, ?c := key_box ! i]) = mset key_box"
    using assms c by (simp add: mset_swap)
  moreover have "0 < length key_data" using assms(1) by (cases key_data) auto
  ultimately show ?thesis
    using assms by (simp add: ksa_step_def Let_def)
qed

lemma ksa_loop_ok:
  assumes "off < length key_data" "length key_box = 256" "\<forall>i \<in> set idxs. i < 256"
  shows "\<exists>kb' c off'. ksa_loop key_data idxs (key_box, lst, off) = Inr (kb', c, off')
           \<and> off' < length key_data \<and> length kb' = 256 \<and> mset kb' = mset key_box"
  using assms
proof (induction idxs arbitrary: key_box lst off)
  case Nil
  then show ?case by simp
next
  case (Cons i idxs)
  from ksa_step_ok [OF Cons.prems(1,2), of i lst] Cons.prems(3)
  obtain kb1 c1 off1 where s: "ksa_step key_data i (key_box, lst, off) = Inr (kb1, c1, off1)"
    and inv: "off1 < length key_data" "length kb1 = 256" "mset kb1 = mset key_box"
    by auto
  from Cons.IH [OF inv(1,2), of c1] Cons.prems(3)
  obtain kb' c off' where "ksa_loop key_data idxs (kb1, c1, off1) = Inr (kb', c, off')"
    "off' < length key_data" "length kb' = 256" "mset kb' = mset kb1"
    by auto
  with s inv show ?case by simp
qed

lemma build_key_box_ok:
  assumes "key_data \<noteq> []"
  shows "\<exists>kb. build_key_box key_data = Inr kb \<and> length kb = 256 \<and> mset kb = mset [0..<256]"
proof -
  from ksa_loop_ok [of 0 key_data "[0..<256]" "[0..<256]" 0] assms
  obtain kb' c off' where "ksa_loop key_data [0..<256] ([0..<256], 0, 0) = Inr (kb', c, off')"
    "length kb' = 256" "mset kb' = mset [0..<256]"
    by auto
  then show ?thesis by (simp add: build_key_box_def)
qed

lemma ksa_loop_snoc:
  "ksa_loop key_data (idxs @ [i]) st =
     (case ksa_loop key_data idxs st of Inl e \<Rightarrow> Inl e | Inr st' \<Rightarrow> ksa_step key_data i st')"
  by (induction idxs arbitrary: st) (auto split: sum.splits)

lemma ksa_loop_spec:
  assumes "key_data \<noteq> []"
  shows "ksa_loop key_data [0..<n] ([0..<256], 0, 0) = Inr (spec_schedule key_data n)
         \<and> snd (snd (spec_schedule key_data n)) < length key_data"
proof (induction n)
  case 0
  from assms show ?case by simp
next
  case (Suc n)
  obtain t carry ko where st: "spec_schedule key_data n = (t, carry, ko)"
    by (cases "spec_schedule key_data n") auto
  with Suc have ko: "ko < length key_data" by simp
  have "ksa_step key_data n (t, carry, ko) = Inr (spec_schedule key_data (Suc n))"
    using ko by (simp add: st ksa_step_def swap_entries_def Let_def and_255)
  moreover have "snd (snd (spec_schedule key_data (Suc n))) < length key_data"
    using assms by (simp add: st Let_def)
  ultimately show ?case
    using Suc st by (simp add: ksa_loop_snoc)
qed

lemma build_key_box_spec: "key_data \<noteq> [] \<Longrightarrow> build_key_box key_data = Inr (spec_table key_data)"
  by (simp add: build_key_box_def spec_table_def ksa_loop_spec)

lemma keystream_at_spec: "keystream_at key_box p = spec_keystream key_box p"
  by (simp add: keystream_at_def spec_keystream_def and_255)

text \<open>The empty seed key is the one input the schedule fails on, at \<^verbatim>\<open>key_data[off]\<close>.\<close>

lemma ksa_loop_empty_key: "ksa_loop [] (i # rest) st = Inl IndexError"
  by (cases st) (simp add: ksa_step_def)

lemma build_key_box_empty: "build_key_box [] = Inl IndexError"
proof -
  have "[0..<256] = 0 # [Suc 0..<256]" by (rule upt_conv_Cons) simp
  then have "ksa_loop [] [0..<256] ([0..<256], 0, 0) = Inl IndexError"
    by (simp only: ksa_loop_empty_key)
  then show ?thesis by (simp only: build_key_box_def sum.case)
qed

text \<open>
  Every index the schedule and the keystream use is below 256, the length of the
  table, so no read of the table in the model is out of range.
\<close>

lemma keystream_reads_in_range:
  assumes "length key_box = 256"
  shows "i AND 255 < length key_box"
    and "(key_box ! (i AND 255) + (i AND 255)) AND 255 < length key_box"
    and "(key_box ! (i AND 255) + key_box ! ((key_box ! (i AND 255) + (i AND 255)) AND 255)) AND 255
           < length key_box"
  using assms by (simp_all add: and_255)

section \<open>The decoding loops: what they compute\<close>

lemma fold_xor_at:
  "n \<le> length chunk \<Longrightarrow>
   fold xor_at [1..<Suc n] (key_box, chunk) =
     (key_box, map (\<lambda>k. if k < n then chunk ! k XOR keystream_at key_box (k + 1) else chunk ! k)
                 [0..<length chunk])"
proof (induction n)
  case 0
  show ?case by (simp add: map_nth)
next
  case (Suc n)
  let ?done = "map (\<lambda>k. if k < n then chunk ! k XOR keystream_at key_box (k + 1) else chunk ! k)
                 [0..<length chunk]"
  from Suc have n: "n < length chunk" and ih: "fold xor_at [1..<Suc n] (key_box, chunk) = (key_box, ?done)"
    by simp_all
  have "[1..<Suc (Suc n)] = [1..<Suc n] @ [Suc n]" by simp
  then have "fold xor_at [1..<Suc (Suc n)] (key_box, chunk) = xor_at (Suc n) (key_box, ?done)"
    by (simp only: fold_append o_apply ih fold_simps)
  also have "\<dots> = (key_box, ?done[n := ?done ! n XOR keystream_at key_box (Suc n)])"
    by (simp add: xor_at_def)
  also have "?done[n := ?done ! n XOR keystream_at key_box (Suc n)] =
     map (\<lambda>k. if k < Suc n then chunk ! k XOR keystream_at key_box (k + 1) else chunk ! k)
                 [0..<length chunk]"
    using n by (intro nth_equalityI) (auto simp: nth_list_update less_Suc_eq)
  finally show ?case .
qed

lemma decode_chunk_eq: "decode_chunk key_box chunk = (key_box, xor_stream key_box 0 chunk)"
  using fold_xor_at [of "length chunk" chunk key_box]
  by (simp add: decode_chunk_def xor_stream_def)

lemma keystream_at_period: "keystream_at key_box (i + 256 * m) = keystream_at key_box i"
  by (simp add: keystream_at_def and_255)

lemma xor_stream_append:
  "xor_stream key_box pos (xs @ ys) = xor_stream key_box pos xs @ xor_stream key_box (pos + length xs) ys"
  by (auto simp: xor_stream_def nth_append intro!: nth_equalityI simp: add.commute add.left_commute)

lemma xor_stream_Nil: "xor_stream key_box pos [] = []"
  by (simp add: xor_stream_def)

lemma xor_stream_shift: "xor_stream key_box (pos + 256 * m) xs = xor_stream key_box pos xs"
proof -
  have "keystream_at key_box (pos + 256 * m + k + 1) = keystream_at key_box (pos + k + 1)" for k
  proof -
    have "pos + 256 * m + k + 1 = (pos + k + 1) + 256 * m" by simp
    then show ?thesis by (simp only: keystream_at_period)
  qed
  then show ?thesis by (simp add: xor_stream_def)
qed

lemma stream_audio_eq:
  "stream_audio key_box rest out = (key_box, out @ xor_stream key_box 0 rest)"
proof (induction key_box rest out rule: stream_audio.induct)
  case (1 key_box rest out)
  show ?case
  proof (cases "rest = []")
    case True
    then show ?thesis by (simp add: xor_stream_Nil stream_audio.simps)
  next
    case False
    let ?chunk = "take 32768 rest"
    from False have ne: "?chunk \<noteq> []" by simp
    have dc: "decode_chunk key_box ?chunk = (key_box, xor_stream key_box 0 ?chunk)"
      by (rule decode_chunk_eq)
    have ih: "stream_audio key_box (drop 32768 rest) (out @ xor_stream key_box 0 ?chunk)
              = (key_box, (out @ xor_stream key_box 0 ?chunk) @ xor_stream key_box 0 (drop 32768 rest))"
      using "1.IH" [OF refl ne dc [symmetric]] .
    have tail: "xor_stream key_box (0 + length ?chunk) (drop 32768 rest) = xor_stream key_box 0 (drop 32768 rest)"
    proof (cases "32768 \<le> length rest")
      case True
      then have "length ?chunk = 256 * 128" by simp
      then show ?thesis using xor_stream_shift [of key_box 0 128] by simp
    next
      case False
      then show ?thesis by (simp add: xor_stream_Nil)
    qed
    have "xor_stream key_box 0 rest = xor_stream key_box 0 (?chunk @ drop 32768 rest)" by simp
    also have "\<dots> = xor_stream key_box 0 ?chunk @ xor_stream key_box 0 (drop 32768 rest)"
      unfolding xor_stream_append tail ..
    finally have parts: "xor_stream key_box 0 rest = xor_stream key_box 0 ?chunk @ xor_stream key_box 0 (drop 32768 rest)" .
    show ?thesis
      by (subst stream_audio.simps) (simp add: Let_def ne [simplified] dc ih parts False)
  qed
qed

lemma stream_audio_global_eq:
  "stream_audio_global key_box pos rest out = out @ xor_stream key_box pos rest"
proof (induction key_box pos rest out rule: stream_audio_global.induct)
  case (1 key_box pos rest out)
  show ?case
  proof (cases "rest = []")
    case True
    then show ?thesis by (simp add: xor_stream_Nil stream_audio_global.simps)
  next
    case False
    let ?chunk = "take 32768 rest"
    from False have ne: "?chunk \<noteq> []" by simp
    have dc: "decode_chunk_from key_box pos ?chunk = xor_stream key_box pos ?chunk"
      by (simp add: decode_chunk_from_def xor_stream_def)
    have ih: "stream_audio_global key_box (pos + length ?chunk) (drop 32768 rest) (out @ decode_chunk_from key_box pos ?chunk)
              = (out @ decode_chunk_from key_box pos ?chunk) @ xor_stream key_box (pos + length ?chunk) (drop 32768 rest)"
      using "1.IH" [OF refl ne] .
    have "xor_stream key_box pos rest = xor_stream key_box pos (?chunk @ drop 32768 rest)" by simp
    also have "\<dots> = xor_stream key_box pos ?chunk @ xor_stream key_box (pos + length ?chunk) (drop 32768 rest)"
      unfolding xor_stream_append ..
    finally have parts: "xor_stream key_box pos rest = xor_stream key_box pos ?chunk @ xor_stream key_box (pos + length ?chunk) (drop 32768 rest)" .
    show ?thesis
      using ih False
      by (subst stream_audio_global.simps) (simp add: Let_def dc parts)
  qed
qed

section \<open>The padding remover: what it returns\<close>

lemma slice_to_neg: "slice_to s (- int n) = (if n = 0 then [] else take (length s - n) s)"
  by (auto simp: slice_to_def nat_diff_distrib' intro: arg_cong2 [where f = take])

lemma unpad_nonempty: "s \<noteq> [] \<Longrightarrow> unpad s = Inr (if last s = 0 then [] else take (length s - last s) s)"
  by (simp add: unpad_def slice_to_neg)

text \<open>
  C10. On a non-empty buffer \<open>b\<close> with last byte \<open>n\<close> the padding remover never raises:
  it returns the first \<open>len(b) - n\<close> bytes when \<open>1 \<le> n < len(b)\<close>, and the empty
  sequence when \<open>n = 0\<close> (the slice \<^verbatim>\<open>b[:-0]\<close> is \<^verbatim>\<open>b[:0]\<close>) and when \<open>n \<ge> len(b)\<close>.
\<close>

theorem unpad_total:
  assumes "b \<noteq> []"
  shows "(\<exists>r. unpad b = Inr r)
       \<and> (1 \<le> last b \<and> last b < length b \<longrightarrow> unpad b = Inr (take (length b - last b) b))
       \<and> (last b = 0 \<longrightarrow> unpad b = Inr [])
       \<and> (length b \<le> last b \<longrightarrow> unpad b = Inr [])"
  using assms by (simp add: unpad_nonempty)

theorem unpad_total_witness:
  "[7, 8, 9, 2] \<noteq> ([] :: bytes) \<and> unpad [7, 8, 9, 2] = Inr [7, 8]
   \<and> unpad [7, 8, 0] = Inr [] \<and> unpad [7, 8, 5] = Inr []"
  using unpad_total [of "[7, 8, 9, 2]"] unpad_total [of "[7, 8, 0]"] unpad_total [of "[7, 8, 5]"]
  by simp

text \<open>
  C6, as the code has it. On a non-empty buffer with last byte \<open>n\<close>: for
  \<open>1 \<le> n \<le> len\<close> the padding remover returns exactly the first \<open>len - n\<close> bytes; for
  \<open>n = 0\<close> and for \<open>n > len\<close> it does not fail, it returns the empty byte sequence.
\<close>

theorem unpad_by_last_byte:
  assumes "b \<noteq> []"
  shows "(1 \<le> last b \<and> last b \<le> length b \<longrightarrow> unpad b = Inr (take (length b - last b) b))
       \<and> (last b = 0 \<or> length b < last b \<longrightarrow> unpad b = Inr [])"
  using assms by (auto simp: unpad_nonempty)

theorem unpad_by_last_byte_witness:
  "[1, 2, 3, 4, 3] \<noteq> ([] :: bytes) \<and> unpad [1, 2, 3, 4, 3] = Inr [1, 2]
   \<and> unpad [4, 4, 4, 4] = Inr [] \<and> unpad [1, 0] = Inr [] \<and> unpad [1, 200] = Inr []"
  using unpad_by_last_byte [of "[1, 2, 3, 4, 3]"] unpad_by_last_byte [of "[4, 4, 4, 4]"]
    unpad_by_last_byte [of "[1, 0]"] unpad_by_last_byte [of "[1, 200]"]
  by simp

text \<open>
  C6 as stated fails: with last byte 0, and with a last byte larger than the buffer,
  the padding remover returns (the empty sequence) where the claim has it fail.
\<close>

theorem unpad_returns_on_bad_padding:
  "unpad [9, 9, 0] = Inr [] \<and> unpad [9, 9, 7] = Inr []"
  by (simp add: unpad_def slice_to_def)


section \<open>The claims about the keystream engine\<close>

lemma xor_stream_nth:
  "k < length xs \<Longrightarrow> xor_stream key_box pos xs ! k = xs ! k XOR keystream_at key_box (pos + k + 1)"
  by (simp add: xor_stream_def)

text \<open>
  C1. For a seed key of length at least 1 the key schedule of the code returns the
  table the specification describes; and the byte the code decodes at the 1-indexed
  position \<open>p\<close> of a chunk is the ciphertext byte XORed with \<open>table[idx]\<close>, where
  \<open>j = p mod 256\<close> and \<open>idx = (table[j] + table[(table[j] + j) mod 256]) mod 256\<close>. The
  same holds for position \<open>p\<close> of chunk number \<open>q\<close> of a whole payload.
\<close>

theorem keystream_refines_spec:
  assumes "key_data \<noteq> []" and "1 \<le> p" and "p \<le> length chunk"
  shows "build_key_box key_data = Inr (spec_table key_data)
       \<and> snd (decode_chunk (spec_table key_data) chunk) ! (p - 1)
           = chunk ! (p - 1) XOR spec_keystream (spec_table key_data) p
       \<and> (p \<le> 32768 \<and> 32768 * q + p \<le> length payload \<longrightarrow>
            snd (stream_audio (spec_table key_data) payload []) ! (32768 * q + p - 1)
              = payload ! (32768 * q + p - 1) XOR spec_keystream (spec_table key_data) p)"
proof (intro conjI impI)
  show "build_key_box key_data = Inr (spec_table key_data)"
    using assms(1) by (rule build_key_box_spec)
  from assms have "p - 1 < length chunk" and p: "p - 1 + 1 = p" by simp_all
  then show "snd (decode_chunk (spec_table key_data) chunk) ! (p - 1)
           = chunk ! (p - 1) XOR spec_keystream (spec_table key_data) p"
    by (simp add: decode_chunk_eq xor_stream_nth keystream_at_spec)
  assume "p \<le> 32768 \<and> 32768 * q + p \<le> length payload"
  then have "32768 * q + p \<le> length payload" ..
  with assms(2) have k: "32768 * q + p - 1 < length payload"
    and pos: "0 + (32768 * q + p - 1) + 1 = p + 256 * (128 * q)"
    by linarith+
  show "snd (stream_audio (spec_table key_data) payload []) ! (32768 * q + p - 1)
              = payload ! (32768 * q + p - 1) XOR spec_keystream (spec_table key_data) p"
    unfolding stream_audio_eq snd_conv append_Nil xor_stream_nth [OF k] pos keystream_at_period
    by (simp only: keystream_at_spec)
qed

theorem keystream_refines_spec_witness:
  "[1, 2, 3] \<noteq> ([] :: bytes) \<and> (1 :: nat) \<le> 2 \<and> (2 :: nat) \<le> length [10, 20, 30 :: nat]
   \<and> build_key_box [1, 2, 3] = Inr (spec_table [1, 2, 3])
   \<and> snd (decode_chunk (spec_table [1, 2, 3]) [10, 20, 30]) ! (2 - 1)
        = [10, 20, 30] ! (2 - 1) XOR spec_keystream (spec_table [1, 2, 3]) 2"
proof -
  have h1: "[1, 2, 3] \<noteq> ([] :: bytes)" and h2: "(1 :: nat) \<le> 2"
    and h3: "(2 :: nat) \<le> length [10, 20, 30 :: nat]"
    by simp_all
  from keystream_refines_spec [OF h1 h2 h3] h1 h2 h3 show ?thesis by blast
qed

text \<open>
  C9. For a seed key of length at least 1 the key schedule returns a table of 256
  entries that is a permutation of \<open>0..255\<close>, and decoding never changes it: the table
  in the state after a chunk, and after a whole payload, is the table before.
\<close>

theorem key_box_permutation:
  assumes "key_data \<noteq> []"
  shows "\<exists>key_box. build_key_box key_data = Inr key_box
           \<and> length key_box = 256 \<and> mset key_box = mset [0..<256]
           \<and> distinct key_box \<and> set key_box = {0..<256}
           \<and> (\<forall>chunk. fst (decode_chunk key_box chunk) = key_box)
           \<and> (\<forall>rest out. fst (stream_audio key_box rest out) = key_box)"
proof -
  from build_key_box_ok [OF assms] obtain key_box where
    kb: "build_key_box key_data = Inr key_box" "length key_box = 256"
        "mset key_box = mset [0..<256]"
    by blast
  from kb(3) have "distinct key_box" and "set key_box = {0..<256}"
    using mset_eq_imp_distinct_iff [of key_box "[0..<256]"] mset_eq_setD [of key_box "[0..<256]"]
    by simp_all
  with kb show ?thesis
    by (simp add: decode_chunk_eq stream_audio_eq)
qed

theorem key_box_permutation_witness:
  "[84, 69, 83, 84] \<noteq> ([] :: bytes)
   \<and> (\<exists>key_box. build_key_box [84, 69, 83, 84] = Inr key_box
           \<and> length key_box = 256 \<and> mset key_box = mset [0..<256]
           \<and> distinct key_box \<and> set key_box = {0..<256}
           \<and> (\<forall>chunk. fst (decode_chunk key_box chunk) = key_box)
           \<and> (\<forall>rest out. fst (stream_audio key_box rest out) = key_box))"
proof -
  have h: "[84, 69, 83, 84] \<noteq> ([] :: bytes)" by simp
  from key_box_permutation [OF h] h show ?thesis by blast
qed

text \<open>
  C4. For every payload and every table of 256 entries, decoding the payload in
  successive chunks of 32768 bytes, the position restarting at 1 in each chunk, gives
  byte for byte what decoding the whole payload as one chunk with the positions
  \<open>1..len(payload)\<close> gives.
\<close>

theorem chunked_equals_contiguous:
  assumes "length key_box = 256"
  shows "snd (stream_audio key_box payload []) = snd (decode_chunk key_box payload)"
  by (simp add: stream_audio_eq decode_chunk_eq)

theorem chunked_equals_contiguous_witness:
  "length [0..<256] = 256
   \<and> snd (stream_audio [0..<256] (replicate 40000 7) [])
       = snd (decode_chunk [0..<256] (replicate 40000 7))"
proof -
  have h: "length [0..<256] = 256" by simp
  from chunked_equals_contiguous [OF h] h show ?thesis by blast
qed

text \<open>
  C5, as the code has it. For every payload and every table of 256 entries, a decoder
  whose position counter keeps counting across the chunks gives the same output as
  the decoder that restarts the position at 1 in every chunk: a chunk has
  \<open>32768 = 128 * 256\<close> bytes and the keystream byte depends on the position modulo 256
  only.
\<close>

theorem global_counter_same_output:
  assumes "length key_box = 256"
  shows "stream_audio_global key_box 0 payload [] = snd (stream_audio key_box payload [])"
  by (simp add: stream_audio_global_eq stream_audio_eq)

theorem global_counter_same_output_witness:
  "length [0..<256] = 256
   \<and> stream_audio_global [0..<256] 0 (replicate 40000 7) []
       = snd (stream_audio [0..<256] (replicate 40000 7) [])"
proof -
  have h: "length [0..<256] = 256" by simp
  from global_counter_same_output [OF h] h show ?thesis by blast
qed

text \<open>
  C5 as stated fails: there is no payload longer than 32768 bytes and no table for
  which the two decoders differ.
\<close>

theorem global_counter_never_differs:
  "\<not> (\<exists>key_box payload. length key_box = 256 \<and> 32768 < length payload
         \<and> stream_audio_global key_box 0 payload [] \<noteq> snd (stream_audio key_box payload []))"
  by (simp add: stream_audio_global_eq stream_audio_eq)

section \<open>The claims about the container parser\<close>

lemma xor_mask_fold:
  "n \<le> length d \<Longrightarrow>
   fold (\<lambda>i d. d[i := d ! i XOR m]) [0..<n] d =
     map (\<lambda>k. if k < n then d ! k XOR m else d ! k) [0..<length d]"
proof (induction n)
  case 0
  show ?case by (simp add: map_nth)
next
  case (Suc n)
  let ?done = "map (\<lambda>k. if k < n then d ! k XOR m else d ! k) [0..<length d]"
  from Suc have n: "n < length d"
    and ih: "fold (\<lambda>i d. d[i := d ! i XOR m]) [0..<n] d = ?done"
    by simp_all
  have "fold (\<lambda>i d. d[i := d ! i XOR m]) [0..<Suc n] d = ?done[n := ?done ! n XOR m]"
    by (simp add: ih)
  also have "\<dots> = map (\<lambda>k. if k < Suc n then d ! k XOR m else d ! k) [0..<length d]"
    using n by (intro nth_equalityI) (auto simp: nth_list_update less_Suc_eq)
  finally show ?case .
qed

lemma xor_mask_map: "xor_mask m data = map (\<lambda>b. b XOR m) data"
  using xor_mask_fold [of "length data" data m]
  by (simp add: xor_mask_def map_nth cong: map_cong) (intro nth_equalityI, simp_all)


lemma key_block_A_seed: "recover_key test_lib key_block_A = Inr [84, 69, 83, 84, 75, 69, 89, 33]"
  by (simp add: recover_key_def xor_mask_map key_block_A_def test_lib_def test_aes_def core_key_def
      unpad_def slice_to_def)

lemma container_key_block:
  "read_key_block (container mb) =
     Inr (key_block_A, [length mb, 0, 0, 0] @ mb
            @ [0, 0, 0, 0] @ [0, 0, 0, 0, 0] @ [0, 0, 0, 0] @ [16, 32, 48])"
  by (simp add: read_key_block_def container_def magic_def read_bytes_def seek_cur_def
      read_block_def unpack_u32_def key_block_A_def)

lemma container_key_stage:
  "\<exists>key_box. length key_box = 256 \<and>
     key_stage test_lib (container mb) =
       Inr (key_box, [length mb, 0, 0, 0] @ mb
              @ [0, 0, 0, 0] @ [0, 0, 0, 0, 0] @ [0, 0, 0, 0] @ [16, 32, 48])"
proof -
  from build_key_box_ok [of "[84, 69, 83, 84, 75, 69, 89, 33]"]
  obtain key_box where "build_key_box [84, 69, 83, 84, 75, 69, 89, 33] = Inr key_box"
    and "length key_box = 256"
    by auto
  then show ?thesis
    by (simp add: key_stage_def container_key_block key_block_A_seed)
qed

lemma meta_block_B_fails: "recover_meta test_lib meta_block_B = Inl BinasciiError"
  by (simp add: recover_meta_def xor_mask_map meta_block_B_def test_lib_def test_b64_def)


lemma read_block_prefixed:
  "n < 256 \<Longrightarrow> length mb = n \<Longrightarrow> read_block ([n, 0, 0, 0] @ mb @ rest) = Inr (mb, rest)"
  by (simp add: read_block_def read_bytes_def unpack_u32_def)



text \<open>
  C8. For every input file whose first 8 bytes are not the signature \<^verbatim>\<open>CTENFDAM\<close>
  (a file shorter than 8 bytes among them), the decoder fails at the assertion of line
  103, the code's form of the specification's InvalidContainerError, and the world is
  as it was: no file is created at the output path.
\<close>

theorem bad_magic_rejected:
  assumes "files w input_fp = Some content" and "take 8 content \<noteq> magic"
  shows "dump_ncm L w input_fp output_fp = (Inl AssertionError, w)"
  using assms
  by (simp add: dump_ncm_def prepare_def key_stage_def read_key_block_def read_bytes_def)

theorem bad_magic_rejected_witness:
  "files (test_world [67, 84, 69, 78, 70, 68, 65, 78, 0, 0]) ''song.ncm''
     = Some [67, 84, 69, 78, 70, 68, 65, 78, 0, 0]
   \<and> take 8 [67, 84, 69, 78, 70, 68, 65, 78, 0, 0] \<noteq> magic
   \<and> dump_ncm test_lib (test_world [67, 84, 69, 78, 70, 68, 65, 78, 0, 0]) ''song.ncm'' ''song.mp3''
       = (Inl AssertionError, test_world [67, 84, 69, 78, 70, 68, 65, 78, 0, 0])"
proof -
  have h1: "files (test_world [67, 84, 69, 78, 70, 68, 65, 78, 0, 0]) ''song.ncm''
             = Some [67, 84, 69, 78, 70, 68, 65, 78, 0, 0]"
    by (simp add: test_world_def)
  have h2: "take 8 [67, 84, 69, 78, 70, 68, 65, 78, 0, 0] \<noteq> magic"
    by (simp add: magic_def)
  from bad_magic_rejected [OF h1 h2] h1 h2 show ?thesis by blast
qed

text \<open>The stages of the metadata recovery: a failure of any of them is its failure.\<close>

lemma recover_meta_stage_failures:
  "b64decode L (drop 22 (map (\<lambda>b. b XOR 0x63) mb)) = Inl e \<Longrightarrow> recover_meta L mb = Inl e"
  "b64decode L (drop 22 (map (\<lambda>b. b XOR 0x63) mb)) = Inr md \<Longrightarrow>
     aes_ecb_decrypt L meta_key md = Inl e \<Longrightarrow> recover_meta L mb = Inl e"
  "b64decode L (drop 22 (map (\<lambda>b. b XOR 0x63) mb)) = Inr md \<Longrightarrow>
     aes_ecb_decrypt L meta_key md = Inr raw \<Longrightarrow> unpad raw = Inl e \<Longrightarrow>
     recover_meta L mb = Inl e"
  "b64decode L (drop 22 (map (\<lambda>b. b XOR 0x63) mb)) = Inr md \<Longrightarrow>
     aes_ecb_decrypt L meta_key md = Inr raw \<Longrightarrow> unpad raw = Inr u \<Longrightarrow>
     utf8_decode L u = Inl e \<Longrightarrow> recover_meta L mb = Inl e"
  "b64decode L (drop 22 (map (\<lambda>b. b XOR 0x63) mb)) = Inr md \<Longrightarrow>
     aes_ecb_decrypt L meta_key md = Inr raw \<Longrightarrow> unpad raw = Inr u \<Longrightarrow>
     utf8_decode L u = Inr txt \<Longrightarrow> json_loads L (drop 6 txt) = Inl e \<Longrightarrow>
     recover_meta L mb = Inl e"
  by (simp_all add: recover_meta_def xor_mask_map)

text \<open>
  C2, as the code has it. When the key stage succeeds and the metadata block fails to
  decode (at the base64 decoding, the ECB decryption, the padding remover, the UTF-8
  decoding or the JSON parsing), the decoder fails with that error: it writes no
  output file and hands no URL to the cover download, the world is as it was.
\<close>

theorem metadata_failure_is_fatal:
  assumes "files w input_fp = Some content"
    and "key_stage L content = Inr (key_box, r2)"
    and "read_block r2 = Inr (meta_block, r3)"
    and "recover_meta L meta_block = Inl e"
  shows "dump_ncm L w input_fp output_fp = (Inl e, w)"
  using assms by (simp add: dump_ncm_def prepare_def meta_stage_def)

theorem metadata_failure_is_fatal_witness:
  "dump_ncm test_lib (test_world (container meta_block_B)) ''song.ncm'' ''out/song.flac''
     = (Inl BinasciiError, test_world (container meta_block_B))"
proof -
  from container_key_stage [of meta_block_B] obtain key_box where
    ks: "key_stage test_lib (container meta_block_B) =
       Inr (key_box, [length meta_block_B, 0, 0, 0] @ meta_block_B
              @ [0, 0, 0, 0] @ [0, 0, 0, 0, 0] @ [0, 0, 0, 0] @ [16, 32, 48])"
    by blast
  have rb: "read_block ([length meta_block_B, 0, 0, 0] @ meta_block_B
              @ [0, 0, 0, 0] @ [0, 0, 0, 0, 0] @ [0, 0, 0, 0] @ [16, 32, 48])
            = Inr (meta_block_B, [0, 0, 0, 0] @ [0, 0, 0, 0, 0] @ [0, 0, 0, 0] @ [16, 32, 48])"
    by (rule read_block_prefixed) (simp_all add: meta_block_B_def)
  have f: "files (test_world (container meta_block_B)) ''song.ncm'' = Some (container meta_block_B)"
    by (simp add: test_world_def)
  show ?thesis
    by (rule metadata_failure_is_fatal [OF f ks rb meta_block_B_fails])
qed

text \<open>
  C2 as stated fails: on the container with the metadata block \<open>meta_block_B\<close> the
  metadata recovery fails at the base64 decoding, and the decoder does not succeed:
  it raises that error, and no file exists at the output path afterwards.
\<close>

theorem metadata_failure_aborts_decode:
  "recover_meta test_lib meta_block_B = Inl BinasciiError
   \<and> dump_ncm test_lib (test_world (container meta_block_B)) ''song.ncm'' ''song.mp3''
       = (Inl BinasciiError, test_world (container meta_block_B))
   \<and> files (test_world (container meta_block_B)) ''song.mp3'' = None"
proof -
  from container_key_stage [of meta_block_B] obtain key_box where
    "key_stage test_lib (container meta_block_B) =
       Inr (key_box, [length meta_block_B, 0, 0, 0] @ meta_block_B
              @ [0, 0, 0, 0] @ [0, 0, 0, 0, 0] @ [0, 0, 0, 0] @ [16, 32, 48])"
    by blast
  moreover have "read_block ([length meta_block_B, 0, 0, 0] @ meta_block_B
              @ [0, 0, 0, 0] @ [0, 0, 0, 0, 0] @ [0, 0, 0, 0] @ [16, 32, 48])
            = Inr (meta_block_B, [0, 0, 0, 0] @ [0, 0, 0, 0, 0] @ [0, 0, 0, 0] @ [16, 32, 48])"
    by (rule read_block_prefixed) (simp_all add: meta_block_B_def)
  ultimately show ?thesis
    by (simp add: dump_ncm_def prepare_def meta_stage_def meta_block_B_fails test_world_def)
qed













end
